theory Spec2Isabelle
  imports Complex_Main "HOL-Library.Word" "HOL-Library.Sublist"
begin

section \<open>Python text\<close>

text \<open>
  A Python \<open>str\<close> is a sequence of Unicode code points; the synonym table and the
  datasets hold Vietnamese text, so a string is modelled as the list of its code points.
  \<open>ascii\<close> injects an ASCII literal.
\<close>

type_synonym pystr = "nat list"

definition ascii :: "string \<Rightarrow> pystr" where
  "ascii s = map of_char s"

text \<open>
  \<open>str.isspace\<close> per code point: the set \<open>str.strip()\<close> removes at both ends.
\<close>

definition is_space :: "nat \<Rightarrow> bool" where
  "is_space c \<longleftrightarrow>
     (9 \<le> c \<and> c \<le> 13) \<or> (28 \<le> c \<and> c \<le> 32) \<or> c = 0x85 \<or> c = 0xA0 \<or> c = 0x1680 \<or>
     (0x2000 \<le> c \<and> c \<le> 0x200A) \<or> c = 0x2028 \<or> c = 0x2029 \<or> c = 0x202F \<or>
     c = 0x205F \<or> c = 0x3000"

definition lstrip :: "pystr \<Rightarrow> pystr" where
  "lstrip s = dropWhile is_space s"

definition rstrip :: "pystr \<Rightarrow> pystr" where
  "rstrip s = rev (dropWhile is_space (rev s))"

definition strip :: "pystr \<Rightarrow> pystr" where
  "strip s = rstrip (lstrip s)"

text \<open>
  \<open>str.lower()\<close>: \<open>A\<close>..\<open>Z\<close> go to \<open>a\<close>..\<open>z\<close> and every other ASCII code point stays.
  The source lowers the output of \<open>unidecode\<close>, which is ASCII, and the limit string
  before comparing it with \<open>"all"\<close>. Outside ASCII only U+0130 and U+212A have an ASCII
  letter in their lowercase form (\<open>i\<close> and \<open>k\<close>), so no code point above 127 can
  contribute to \<open>"all"\<close>; the model leaves those code points alone.
\<close>

definition lower_cp :: "nat \<Rightarrow> nat" where
  "lower_cp c = (if 65 \<le> c \<and> c \<le> 90 then c + 32 else c)"

definition lower :: "pystr \<Rightarrow> pystr" where
  "lower s = map lower_cp s"

text \<open>\<open>p in x\<close> on two strings: \<open>p\<close> occurs in \<open>x\<close> as a contiguous substring.\<close>

fun str_in :: "pystr \<Rightarrow> pystr \<Rightarrow> bool" where
  "str_in p [] = (p = [])"
| "str_in p (c # cs) = (prefix p (c # cs) \<or> str_in p cs)"

section \<open>unidecode\<close>

text \<open>
  \<open>unidecode(string)\<close> replaces each character by an ASCII string: a code point below
  128 by itself, any other by the entry of the library's data tables (\<open>''\<close> where the
  tables have none). The tables belong to the \<open>unidecode\<close> package, not to this
  repository. \<open>x_data\<close> writes out the entries for the 42 non-ASCII code points that
  occur in \<open>recommend.py\<close>; the rest of the tables is the parameter \<open>tbl\<close>, whose
  entries are ASCII by type (7-bit characters), as the package guarantees.
\<close>

type_synonym table = "nat \<Rightarrow> 7 word list"

definition x_data :: "(nat \<times> string) list" where
  "x_data =
    [(0xE0, ''a''), (0xE1, ''a''), (0xE2, ''a''), (0xE3, ''a''), (0xE8, ''e''), (0xEA, ''e''),
     (0xEC, ''i''), (0xED, ''i''), (0xF3, ''o''), (0xF4, ''o''), (0xFA, ''u''),
     (0x103, ''a''), (0x111, ''d''), (0x129, ''i''), (0x1B0, ''u''),
     (0x1EA1, ''a''), (0x1EA3, ''a''), (0x1EA5, ''a''), (0x1EA7, ''a''), (0x1EA9, ''a''),
     (0x1EAB, ''a''), (0x1EAD, ''a''), (0x1EAF, ''a''), (0x1EB1, ''a''), (0x1EB7, ''a''),
     (0x1EBB, ''e''), (0x1EBF, ''e''), (0x1EC1, ''e''), (0x1EC3, ''e''), (0x1EC7, ''e''),
     (0x1EC9, ''i''), (0x1ECB, ''i''), (0x1ECD, ''o''), (0x1ECF, ''o''), (0x1ED1, ''o''),
     (0x1ED9, ''o''), (0x1EDD, ''o''), (0x1EE3, ''o''), (0x1EE9, ''u''), (0x1EF1, ''u''),
     (0x1EF5, ''y''), (0x1EF9, ''y'')]"

definition get_repl_str :: "table \<Rightarrow> nat \<Rightarrow> pystr" where
  "get_repl_str tbl c =
     (if c < 0x80 then [c]
      else case map_of x_data c of Some r \<Rightarrow> ascii r | None \<Rightarrow> map unat (tbl c))"

definition unidecode :: "table \<Rightarrow> pystr \<Rightarrow> pystr" where
  "unidecode tbl s = concat (map (get_repl_str tbl) s)"

section \<open>normalize\<close>

text \<open>
  The values \<open>normalize\<close> receives: \<open>None\<close>, a \<open>str\<close>, the float NaN that pandas puts
  in an empty cell, or any other object, which is carried by what \<open>str()\<close> returns for it.
\<close>

datatype pyval = PNone | PStr pystr | PNaN | PObj pystr

fun py_str :: "pyval \<Rightarrow> pystr" where
  "py_str PNone = ascii ''None''"
| "py_str (PStr s) = s"
| "py_str PNaN = ascii ''nan''"
| "py_str (PObj r) = r"

text \<open>
  \<^verbatim>\<open>def normalize(s): return unidecode(str(s)).lower().strip() if s is not None else ""\<close>
\<close>

definition normalize :: "table \<Rightarrow> pyval \<Rightarrow> pystr" where
  "normalize tbl s = (if s \<noteq> PNone then strip (lower (unidecode tbl (py_str s))) else [])"

section \<open>The synonym table and the canonical lookup\<close>

text \<open>
  \<open>CATEGORY_SYNONYMS\<close> is a dict literal; Python iterates a dict in insertion order, so
  the model is the association list in declaration order. Its keys are distinct.
\<close>

definition CATEGORY_SYNONYMS :: "(pystr \<times> pystr list) list" where
  "CATEGORY_SYNONYMS =
    [(ascii ''accident'',
      [ascii ''tai nan'',
       ascii ''tai-nan'',
       ascii ''tai n'' @ [0x1EA1] @ ascii ''n'',
       ascii ''tai n'' @ [0x1EA1] @ ascii ''n c'' @ [0xE1] @ ascii '' nh'' @ [0xE2] @ ascii ''n'',
       ascii ''tai n'' @ [0x1EA1] @ ascii ''n lao '' @ [0x111, 0x1ED9] @ ascii ''ng'',
       ascii ''personal accident'',
       ascii ''accident'',
       ascii ''pa'',
       ascii ''tai n'' @ [0x1EA1] @ ascii ''n 24/7'']),
     (ascii ''health'',
      [ascii ''suc khoe'',
       ascii ''s'' @ [0x1EE9] @ ascii ''c kh'' @ [0x1ECF] @ ascii ''e'',
       ascii ''suc-khoe'',
       ascii ''health'',
       ascii ''medical'',
       ascii ''healthcare'',
       ascii ''ch'' @ [0x103] @ ascii ''m s'' @ [0xF3] @ ascii ''c s'' @ [0x1EE9] @ ascii ''c kh'' @ [0x1ECF] @ ascii ''e'',
       ascii ''vi'' @ [0x1EC7] @ ascii ''n ph'' @ [0xED],
       ascii ''benh vien'',
       ascii ''hospitalization'']),
     (ascii ''life'',
      [ascii ''nh'' @ [0xE2] @ ascii ''n th'' @ [0x1ECD],
       ascii ''nhan tho'',
       ascii ''nhan-tho'',
       ascii ''life'',
       ascii ''life insurance'',
       ascii ''term life'',
       ascii ''whole life'',
       ascii ''b'' @ [0x1EA3] @ ascii ''o v'' @ [0x1EC7] @ ascii '' t'' @ [0xE0] @ ascii ''i ch'' @ [0xED] @ ascii ''nh'',
       ascii ''b'' @ [0x1EA3] @ ascii ''o v'' @ [0x1EC7] @ ascii '' gia '' @ [0x111, 0xEC] @ ascii ''nh'']),
     (ascii ''critical illness'',
      [ascii ''b'' @ [0x1EC7] @ ascii ''nh hi'' @ [0x1EC3] @ ascii ''m ngh'' @ [0xE8] @ ascii ''o'',
       ascii ''critical illness'',
       ascii ''ci'',
       ascii ''ung th'' @ [0x1B0],
       ascii ''cancer'',
       ascii ''tim m'' @ [0x1EA1] @ ascii ''ch'',
       [0x111, 0x1ED9] @ ascii ''t qu'' @ [0x1EF5],
       ascii ''tai bi'' @ [0x1EBF] @ ascii ''n'',
       ascii ''man tinh'',
       ascii ''m'' @ [0xE3] @ ascii ''n t'' @ [0xED] @ ascii ''nh'',
       ascii ''b'' @ [0x1EC7] @ ascii ''nh n'' @ [0x1EB7] @ ascii ''ng'',
       ascii ''b'' @ [0x1EC7] @ ascii ''nh nghi'' @ [0xEA] @ ascii ''m tr'' @ [0x1ECD] @ ascii ''ng'']),
     (ascii ''hospital'',
      [ascii ''b'' @ [0x1EC7] @ ascii ''nh vi'' @ [0x1EC7] @ ascii ''n'',
       ascii ''benh vien'',
       ascii ''hospital'',
       ascii ''hospitalization'',
       ascii ''n'' @ [0x1EB1] @ ascii ''m vi'' @ [0x1EC7] @ ascii ''n'',
       ascii ''vi'' @ [0x1EC7] @ ascii ''n ph'' @ [0xED],
       ascii ''medical cost'',
       ascii ''inpatient'',
       ascii ''outpatient'',
       ascii ''ngo'' @ [0x1EA1] @ ascii ''i tr'' @ [0xFA],
       ascii ''n'' @ [0x1ED9] @ ascii ''i tr'' @ [0xFA],
       ascii ''ph'' @ [0x1EAB] @ ascii ''u thu'' @ [0x1EAD] @ ascii ''t'',
       ascii ''surgery'']),
     (ascii ''children'',
      [ascii ''tr'' @ [0x1EBB] @ ascii '' em'',
       ascii ''tr'' @ [0x1EBB] @ ascii '' con'',
       ascii ''tr'' @ [0x1EBB] @ ascii '' nh'' @ [0x1ECF],
       ascii ''child'',
       ascii ''children'',
       ascii ''kid'',
       ascii ''kids'',
       ascii ''b'' @ [0x1EA3] @ ascii ''o hi'' @ [0x1EC3] @ ascii ''m tr'' @ [0x1EBB] @ ascii '' em'',
       ascii ''student insurance'',
       ascii ''baby'',
       ascii ''m'' @ [0x1EA7] @ ascii ''m non'',
       ascii ''h'' @ [0x1ECD] @ ascii ''c sinh'']),
     (ascii ''travel'',
      [ascii ''du l'' @ [0x1ECB] @ ascii ''ch'',
       ascii ''du-lich'',
       ascii ''travel'',
       ascii ''travel insurance'',
       ascii ''trip'',
       ascii ''holiday'',
       ascii ''tour'',
       ascii ''overseas'',
       ascii ''b'' @ [0x1EA3] @ ascii ''o hi'' @ [0x1EC3] @ ascii ''m du l'' @ [0x1ECB] @ ascii ''ch'',
       ascii ''b'' @ [0x1EA3] @ ascii ''o hi'' @ [0x1EC3] @ ascii ''m qu'' @ [0x1ED1] @ ascii ''c t'' @ [0x1EBF]]),
     (ascii ''dental'',
      [ascii ''nha khoa'',
       ascii ''dental'',
       ascii ''r'' @ [0x103] @ ascii ''ng'',
       ascii ''r'' @ [0x103] @ ascii ''ng mi'' @ [0x1EC7] @ ascii ''ng'',
       ascii ''ch'' @ [0x103] @ ascii ''m s'' @ [0xF3] @ ascii ''c r'' @ [0x103] @ ascii ''ng'',
       ascii ''ch'' @ [0x1EC9] @ ascii ''nh nha'',
       ascii ''ni'' @ [0x1EC1] @ ascii ''ng r'' @ [0x103] @ ascii ''ng'',
       ascii ''nha s'' @ [0x129],
       ascii ''tr'' @ [0xE1] @ ascii ''m r'' @ [0x103] @ ascii ''ng'',
       ascii ''l'' @ [0xE0] @ ascii ''m r'' @ [0x103] @ ascii ''ng'',
       ascii ''nha khoa th'' @ [0x1EA9] @ ascii ''m m'' @ [0x1EF9]]),
     (ascii ''vision'',
      [ascii ''th'' @ [0x1ECB] @ ascii '' l'' @ [0x1EF1] @ ascii ''c'',
       ascii ''m'' @ [0x1EAF] @ ascii ''t'',
       ascii ''k'' @ [0xED] @ ascii ''nh'',
       ascii ''m'' @ [0x1EAF] @ ascii ''t k'' @ [0xED] @ ascii ''nh'',
       ascii ''vision'',
       ascii ''eye'',
       ascii ''eye care'',
       ascii ''optical'',
       ascii ''optometry'',
       ascii ''kh'' @ [0xE1] @ ascii ''m m'' @ [0x1EAF] @ ascii ''t'',
       ascii ''b'' @ [0x1EA3] @ ascii ''o hi'' @ [0x1EC3] @ ascii ''m m'' @ [0x1EAF] @ ascii ''t''])]"

text \<open>
  \<^verbatim>\<open>CANONICAL = {}
for canon, syns in CATEGORY_SYNONYMS.items():
    for s in syns:
        CANONICAL[unidecode(s).lower()] = canon\<close>
  The two loops, over any table \<open>entries\<close> and starting from any dict \<open>m\<close>.
\<close>

fun fill_syns :: "table \<Rightarrow> pystr \<Rightarrow> pystr list \<Rightarrow> (pystr \<rightharpoonup> pystr) \<Rightarrow> (pystr \<rightharpoonup> pystr)" where
  "fill_syns tbl canon [] m = m"
| "fill_syns tbl canon (s # syns) m =
     fill_syns tbl canon syns (m(lower (unidecode tbl s) \<mapsto> canon))"

fun fill_canonical ::
  "table \<Rightarrow> (pystr \<times> pystr list) list \<Rightarrow> (pystr \<rightharpoonup> pystr) \<Rightarrow> (pystr \<rightharpoonup> pystr)" where
  "fill_canonical tbl [] m = m"
| "fill_canonical tbl ((canon, syns) # entries) m =
     fill_canonical tbl entries (fill_syns tbl canon syns m)"

definition CANONICAL :: "table \<Rightarrow> (pystr \<rightharpoonup> pystr)" where
  "CANONICAL tbl = fill_canonical tbl CATEGORY_SYNONYMS Map.empty"

text \<open>
  Line 135, \<^verbatim>\<open>CANONICAL.get(normalize(c), normalize(c))\<close>: the canonical category of a
  requested category, or its normalized text when the lookup has no such key.
\<close>

definition resolve :: "table \<Rightarrow> pyval \<Rightarrow> pystr" where
  "resolve tbl c =
     (case CANONICAL tbl (normalize tbl c) of Some canon \<Rightarrow> canon | None \<Rightarrow> normalize tbl c)"

section \<open>Errors and responses\<close>

text \<open>
  The exceptions the source raises or lets through, and \<open>CsvNotLoaded\<close> for the message
  of line 114. A response is the JSON payload with the HTTP status: \<open>Ok_rows\<close> is
  \<^verbatim>\<open>{"status": "ok", "rows": n}\<close>, \<open>Ok_items\<close> is
  \<^verbatim>\<open>{"status": "ok", "count": n, "items": [...]}\<close> and \<open>Error_detail\<close> is
  \<^verbatim>\<open>{"status": "error", "detail": str(e)}\<close>.
\<close>

datatype error =
  FileNotFoundError | RuntimeError | ValueError | OverflowError | TypeError | KeyError
  | CsvNotLoaded

type_synonym row = "(pystr \<times> pyval) list"

datatype payload = Ok_rows nat | Ok_items nat "row list" | Error_detail error

type_synonym response = "payload \<times> nat"

section \<open>Data frames\<close>

text \<open>
  A \<open>DataFrame\<close> as the source uses it: the column names in order, and the rows in
  order, each row the dict from column name to cell that \<open>to_dict(orient="records")\<close>
  gives. A cell that a row does not hold reads as NaN.
\<close>

record frame =
  columns :: "pystr list"
  rows :: "row list"

definition Category :: pystr where
  "Category = ascii ''Category''"

definition category_n :: pystr where
  "category_n = ascii ''_category_n''"

definition cell :: "row \<Rightarrow> pystr \<Rightarrow> pyval" where
  "cell r name = (case map_of r name of Some v \<Rightarrow> v | None \<Rightarrow> PNaN)"

text \<open>\<open>df[name]\<close>: the column, or \<open>KeyError\<close>.\<close>

definition getitem :: "frame \<Rightarrow> pystr \<Rightarrow> error + pyval list" where
  "getitem df name =
     (if name \<in> set (columns df) then Inr (map (\<lambda>r. cell r name) (rows df)) else Inl KeyError)"

text \<open>
  Assigning a key of a dict: the value is replaced where the key is, appended otherwise.
\<close>

fun dict_set :: "'k \<Rightarrow> 'v \<Rightarrow> ('k \<times> 'v) list \<Rightarrow> ('k \<times> 'v) list" where
  "dict_set k v [] = [(k, v)]"
| "dict_set k v ((k', v') # kvs) = (if k = k' then (k, v) # kvs else (k', v') # dict_set k v kvs)"

text \<open>\<open>df[name] = vals\<close>, with one value per row.\<close>

definition setitem :: "pystr \<Rightarrow> pyval list \<Rightarrow> frame \<Rightarrow> frame" where
  "setitem name vals df =
     df\<lparr>columns := (if name \<in> set (columns df) then columns df else columns df @ [name]),
        rows := map (\<lambda>(r, v). dict_set name v r) (zip (rows df) vals)\<rparr>"

section \<open>Loading the CSV\<close>

text \<open>
  The file at \<open>DATA_PATH\<close> as a load attempt finds it: missing, or present, and then
  \<open>pd.read_csv(path, encoding=enc)\<close> returns a frame or raises (\<open>None\<close>) under each of
  the four encodings.
\<close>

datatype encoding = UTF8 | UTF8_SIG | CP1258 | CP1252

datatype source = Missing | File "encoding \<Rightarrow> frame option"

text \<open>
  \<^verbatim>\<open>for enc in ("utf-8", "utf-8-sig", "cp1258", "cp1252"):
    try: return pd.read_csv(path, encoding=enc)
    except Exception as e: tried.append(...)
raise RuntimeError(...)\<close>
\<close>

fun read_csv_from :: "(encoding \<Rightarrow> frame option) \<Rightarrow> encoding list \<Rightarrow> error + frame" where
  "read_csv_from rd [] = Inl RuntimeError"
| "read_csv_from rd (enc # encs) =
     (case rd enc of Some df \<Rightarrow> Inr df | None \<Rightarrow> read_csv_from rd encs)"

definition read_csv_any :: "(encoding \<Rightarrow> frame option) \<Rightarrow> error + frame" where
  "read_csv_any rd = read_csv_from rd [UTF8, UTF8_SIG, CP1258, CP1252]"

definition load_csv :: "table \<Rightarrow> source \<Rightarrow> error + frame" where
  "load_csv tbl src =
     (case src of
        Missing \<Rightarrow> Inl FileNotFoundError
      | File rd \<Rightarrow>
          (case read_csv_any rd of
             Inl e \<Rightarrow> Inl e
           | Inr df \<Rightarrow>
               if Category \<notin> set (columns df) then Inl ValueError
               else (case getitem df Category of
                       Inl e \<Rightarrow> Inl e
                     | Inr col \<Rightarrow>
                         Inr (setitem category_n (map (\<lambda>x. PStr (normalize tbl x)) col) df))))"

text \<open>
  The global \<open>df_cache\<close> is the state: \<open>None\<close> until a load succeeds.
  \<open>ensure_loaded\<close> returns the new value of \<open>df_cache\<close>, or the exception of the load.
\<close>

definition ensure_loaded :: "table \<Rightarrow> source \<Rightarrow> frame option \<Rightarrow> error + frame option" where
  "ensure_loaded tbl src df_cache =
     (case df_cache of
        None \<Rightarrow> (case load_csv tbl src of Inl e \<Rightarrow> Inl e | Inr df \<Rightarrow> Inr (Some df))
      | Some df \<Rightarrow> Inr df_cache)"

text \<open>
  \<^verbatim>\<open>try:
    df_cache = load_csv()
    return jsonify({"status": "ok", "rows": len(df_cache), ...})
except Exception as e:
    return jsonify({"status": "error", "detail": str(e), ...}), 400\<close>
\<close>

definition reload_csv :: "table \<Rightarrow> source \<Rightarrow> frame option \<Rightarrow> frame option \<times> response" where
  "reload_csv tbl src df_cache =
     (case load_csv tbl src of
        Inr df \<Rightarrow> (Some df, (Ok_rows (length (rows df)), 200))
      | Inl e \<Rightarrow> (df_cache, (Error_detail e, 400)))"

section \<open>The request\<close>

text \<open>
  What the request body holds after \<open>request.get_json\<close>: under \<open>"categories"\<close> a list of
  JSON values (\<open>None\<close> when the key is absent), under \<open>"limit"\<close> any JSON value
  (\<open>None\<close> when absent). Python's \<open>json\<close> reads a number with a fraction or an
  exponent as a float, and \<^verbatim>\<open>1e999\<close>, \<^verbatim>\<open>Infinity\<close> and \<^verbatim>\<open>NaN\<close> as the
  non-finite floats.
\<close>

datatype pyfloat = Finite rat | PosInf | NegInf | NotANumber

datatype json = JNull | JBool bool | JInt int | JFloat pyfloat | JStr pystr | JArray | JObject

record body =
  categories :: "pyval list option"
  limit_raw :: "json option"

text \<open>
  What the interpreter and its libraries supply: the rest of unidecode's tables, the
  decimal value of the Unicode digits beyond ASCII (\<open>int()\<close> accepts them), and the
  interpreter's limit on the digits of an integer string (0 when it has none; 4300 by
  default from Python 3.11 on).
\<close>

record env =
  translit :: table
  decimal :: "nat \<Rightarrow> nat option"
  max_str_digits :: nat

subsection \<open>int()\<close>

text \<open>
  \<open>int(x)\<close> on a float truncates toward zero; it raises \<open>OverflowError\<close> on an
  infinity and \<open>ValueError\<close> on NaN.
\<close>

fun int_of_float :: "pyfloat \<Rightarrow> error + int" where
  "int_of_float (Finite q) = Inr (if 0 \<le> q then \<lfloor>q\<rfloor> else \<lceil>q\<rceil>)"
| "int_of_float PosInf = Inl OverflowError"
| "int_of_float NegInf = Inl OverflowError"
| "int_of_float NotANumber = Inl ValueError"

text \<open>
  \<open>int(s)\<close> on a string, base 10: whitespace around, an optional sign, then digits
  with single underscores between them; \<open>None\<close> stands for \<open>ValueError\<close>. The
  whitespace skipped here is that of \<open>str.isspace\<close> without the four separators
  U+001C..U+001F.
\<close>

definition int_space :: "nat \<Rightarrow> bool" where
  "int_space c \<longleftrightarrow> is_space c \<and> (c < 28 \<or> 31 < c)"

definition digit_value :: "(nat \<Rightarrow> nat option) \<Rightarrow> nat \<Rightarrow> nat option" where
  "digit_value dec c =
     (if 48 \<le> c \<and> c \<le> 57 then Some (c - 48) else if c < 0x80 then None else dec c)"

text \<open>
  \<open>digits_value dec cs sep acc n\<close> reads the digits \<open>cs\<close>; \<open>sep\<close> says that a digit
  must come next (at the start and after an underscore), \<open>acc\<close> is the value and \<open>n\<close>
  the number of digits read so far.
\<close>

fun digits_value ::
  "(nat \<Rightarrow> nat option) \<Rightarrow> pystr \<Rightarrow> bool \<Rightarrow> nat \<Rightarrow> nat \<Rightarrow> (nat \<times> nat) option" where
  "digits_value dec [] sep acc n = (if sep then None else Some (acc, n))"
| "digits_value dec (c # cs) sep acc n =
     (if c = 95 then (if sep then None else digits_value dec cs True acc n)
      else case digit_value dec c of
             None \<Rightarrow> None
           | Some d \<Rightarrow> digits_value dec cs False (10 * acc + d) (Suc n))"

definition split_sign :: "pystr \<Rightarrow> bool \<times> pystr" where
  "split_sign t =
     (case t of
        [] \<Rightarrow> (False, [])
      | c # cs \<Rightarrow> if c = 43 then (False, cs) else if c = 45 then (True, cs) else (False, t))"

definition py_int :: "env \<Rightarrow> pystr \<Rightarrow> int option" where
  "py_int E s =
     (let (neg, ds) = split_sign (rev (dropWhile int_space (rev (dropWhile int_space s))))
      in case digits_value (decimal E) ds True 0 0 of
           None \<Rightarrow> None
         | Some (v, n) \<Rightarrow>
             if 640 < n \<and> 0 < max_str_digits E \<and> max_str_digits E < n then None
             else Some (if neg then - int v else int v))"

subsection \<open>The limit\<close>

text \<open>
  \<^verbatim>\<open>limit = None
if isinstance(limit_raw, str):
    if limit_raw.strip().lower() != "all":
        try:
            v = int(limit_raw)
            limit = None if v <= 0 else v
        except:
            limit = None
elif isinstance(limit_raw, (int, float)):
    limit = None if int(limit_raw) <= 0 else int(limit_raw)
else:
    limit = None\<close>
  A JSON boolean is a Python \<open>bool\<close>, which is an \<open>int\<close>. The \<open>int()\<close> of the second
  branch is outside any \<open>try\<close> of its own, so its exception leaves the function body.
\<close>

definition positive :: "int \<Rightarrow> int option" where
  "positive v = (if v \<le> 0 then None else Some v)"

fun parse_limit :: "env \<Rightarrow> json option \<Rightarrow> error + int option" where
  "parse_limit E (Some (JStr s)) =
     (if lower (strip s) \<noteq> ascii ''all''
      then (case py_int E s of Some v \<Rightarrow> Inr (positive v) | None \<Rightarrow> Inr None)
      else Inr None)"
| "parse_limit E (Some (JBool b)) = Inr (positive (if b then 1 else 0))"
| "parse_limit E (Some (JInt i)) = Inr (positive i)"
| "parse_limit E (Some (JFloat x)) =
     (case int_of_float x of Inl e \<Rightarrow> Inl e | Inr i \<Rightarrow> Inr (positive i))"
| "parse_limit E _ = Inr None"

section \<open>Matching\<close>

text \<open>
  \<^verbatim>\<open>wanted = set()
for c in categories:
    wanted.add(CANONICAL.get(normalize(c), normalize(c)))\<close>
  The set is a list without duplicates; Python fixes no iteration order for it, and what
  follows depends on the order only through the order of the alternatives in the pattern.
\<close>

definition wanted_of :: "table \<Rightarrow> pyval list \<Rightarrow> pystr list" where
  "wanted_of tbl cats = remdups (map (resolve tbl) cats)"

text \<open>\<open>CATEGORY_SYNONYMS.get(canon, [canon])\<close>\<close>

definition synonyms_of :: "pystr \<Rightarrow> pystr list" where
  "synonyms_of canon =
     (case map_of CATEGORY_SYNONYMS canon of Some syns \<Rightarrow> syns | None \<Rightarrow> [canon])"

text \<open>\<open>re.escape\<close>: a backslash before each of the special characters.\<close>

definition re_special :: "nat \<Rightarrow> bool" where
  "re_special c \<longleftrightarrow>
     c \<in> set [9, 10, 11, 12, 13, 32, 35, 36, 38, 40, 41, 42, 43, 45, 46, 63, 91, 92, 93, 94,
              123, 124, 125, 126]"

definition re_escape :: "pystr \<Rightarrow> pystr" where
  "re_escape s = concat (map (\<lambda>c. if re_special c then [92, c] else [c]) s)"

text \<open>
  \<^verbatim>\<open>syns = []
for canon in wanted:
    syns.extend(CATEGORY_SYNONYMS.get(canon, [canon]))
syns_norm = [re.escape(normalize(s)) for s in syns if s]\<close>
\<close>

definition syns_norm_of :: "table \<Rightarrow> pystr list \<Rightarrow> pystr list" where
  "syns_norm_of tbl wanted =
     map (\<lambda>s. re_escape (normalize tbl (PStr s)))
       (filter (\<lambda>s. s \<noteq> []) (concat (map synonyms_of wanted)))"

fun join :: "pystr \<Rightarrow> pystr list \<Rightarrow> pystr" where
  "join sep [] = []"
| "join sep [x] = x"
| "join sep (x # y # ys) = x @ sep @ join sep (y # ys)"

text \<open>
  What is handed to \<open>str.contains\<close> as \<open>pat\<close>: a \<open>str\<close>, or a compiled \<open>re.Pattern\<close>,
  carried by its source text. The source builds
  \<^verbatim>\<open>cat_re = re.compile("(" + "|".join(syns_norm) + ")")\<close>.
\<close>

datatype pattern = PatStr pystr | PatRe pystr

definition cat_re :: "pystr list \<Rightarrow> pattern" where
  "cat_re syns_norm = PatRe (ascii ''('' @ join (ascii ''|'') syns_norm @ ascii '')'')"

text \<open>
  Python's \<open>pat in x\<close> for a string \<open>x\<close>: the substring test when \<open>pat\<close> is a string,
  and \<open>TypeError\<close> when it is not (\<^verbatim>\<open>'in <string>' requires string as left operand, not
  re.Pattern\<close>). On a cell that is not a string there is no substring test either.
\<close>

fun py_in :: "pattern \<Rightarrow> pyval \<Rightarrow> error + bool" where
  "py_in (PatStr p) (PStr x) = Inr (str_in p x)"
| "py_in pat x = Inl TypeError"

text \<open>
  \<open>Series.str.contains(pat, na=na, regex=False)\<close> on a column of Python objects. With
  \<open>regex=False\<close> pandas does not search with a regular expression: it maps the test
  \<open>pat in x\<close> over the elements, and an element on which the test raises \<open>TypeError\<close>
  gets the value \<open>na\<close> instead.
\<close>

definition str_contains :: "pattern \<Rightarrow> bool \<Rightarrow> pyval list \<Rightarrow> bool list" where
  "str_contains pat na col = map (\<lambda>x. case py_in pat x of Inr b \<Rightarrow> b | Inl e \<Rightarrow> na) col"

text \<open>
  Lines 137 to 146: the mask (\<open>msk\<close>) starts all true; when there are wanted categories and
  \<open>syns_norm\<close> is not empty it is and-ed with
  \<^verbatim>\<open>df_cache["_category_n"].str.contains(cat_re, na=False, regex=False)\<close>.
\<close>

definition mask_of :: "table \<Rightarrow> frame \<Rightarrow> pystr list \<Rightarrow> error + bool list" where
  "mask_of tbl df wanted =
     (let msk = replicate (length (rows df)) True
      in if wanted \<noteq> [] \<and> syns_norm_of tbl wanted \<noteq> []
         then (case getitem df category_n of
                 Inl e \<Rightarrow> Inl e
               | Inr col \<Rightarrow>
                   Inr (map (\<lambda>(m, c). m \<and> c)
                          (zip msk (str_contains (cat_re (syns_norm_of tbl wanted)) False col))))
         else Inr msk)"

text \<open>
  \<open>results[cols].to_dict(orient="records")\<close>: each row as the dict over the columns
  \<open>cols\<close>.
\<close>

definition to_record :: "pystr list \<Rightarrow> row \<Rightarrow> row" where
  "to_record cols r = map (\<lambda>c. (c, cell r c)) cols"

text \<open>
  The body of \<open>recommend\<close> from line 116 on, for the loaded frame \<open>df\<close>:
  \<^verbatim>\<open>filtered = df_cache[mask]
results = filtered if limit is None else filtered.head(limit)
cols = [c for c in df_cache.columns if c != "_category_n"]
items = results[cols].to_dict(orient="records")
return jsonify({"status": "ok", "count": len(items), "items": items})\<close>
\<close>

definition select :: "env \<Rightarrow> frame \<Rightarrow> body \<Rightarrow> error + payload" where
  "select E df b =
     (let cats = (case categories b of None \<Rightarrow> [] | Some cs \<Rightarrow> cs)
      in case parse_limit E (limit_raw b) of
           Inl e \<Rightarrow> Inl e
         | Inr limit \<Rightarrow>
             (case mask_of (translit E) df (wanted_of (translit E) cats) of
                Inl e \<Rightarrow> Inl e
              | Inr msk \<Rightarrow>
                  let filtered = map fst (filter snd (zip (rows df) msk));
                      results = (case limit of None \<Rightarrow> filtered | Some k \<Rightarrow> take (nat k) filtered);
                      cols = filter (\<lambda>c. c \<noteq> category_n) (columns df);
                      items = map (to_record cols) results
                  in Inr (Ok_items (length items) items)))"

text \<open>
  \<open>recommend\<close>: the new \<open>df_cache\<close> and the response. Every exception inside the
  \<open>try\<close> becomes the response with status 500.
\<close>

definition recommend :: "env \<Rightarrow> source \<Rightarrow> frame option \<Rightarrow> body \<Rightarrow> frame option \<times> response" where
  "recommend E src df_cache b =
     (case ensure_loaded (translit E) src df_cache of
        Inl e \<Rightarrow> (df_cache, (Error_detail e, 500))
      | Inr None \<Rightarrow> (None, (Error_detail CsvNotLoaded, 500))
      | Inr (Some df) \<Rightarrow>
          (Some df,
           case select E df b of Inl e \<Rightarrow> (Error_detail e, 500) | Inr p \<Rightarrow> (p, 200)))"

section \<open>Auxiliary notions for the statements\<close>

text \<open>
  The pairs (key, category) in the order in which the two loops that fill \<open>CANONICAL\<close>
  assign them.
\<close>

definition keyed :: "table \<Rightarrow> (pystr \<times> pystr list) list \<Rightarrow> (pystr \<times> pystr) list" where
  "keyed tbl entries =
     concat (map (\<lambda>(canon, syns). map (\<lambda>s. (lower (unidecode tbl s), canon)) syns) entries)"

text \<open>
  A frame as \<open>read_csv\<close> builds it: every row holds exactly the columns, in order, and
  the column names are distinct.
\<close>

definition rectangular :: "frame \<Rightarrow> bool" where
  "rectangular df \<longleftrightarrow> distinct (columns df) \<and> list_all (\<lambda>r. map fst r = columns df) (rows df)"

text \<open>The cached normalized categories, row by row (empty when nothing is cached).\<close>

definition cached_categories :: "frame option \<Rightarrow> pyval list" where
  "cached_categories df_cache =
     (case df_cache of None \<Rightarrow> [] | Some df \<Rightarrow> map (\<lambda>r. cell r category_n) (rows df))"

section \<open>Concrete inputs\<close>

text \<open>
  An environment for the concrete evaluations: no table entries beyond \<open>x_data\<close>, no
  digits beyond ASCII, the default digit limit. None of the inputs below reaches the
  first two.
\<close>

definition no_entries :: table where
  "no_entries c = []"

definition no_decimal :: "nat \<Rightarrow> nat option" where
  "no_decimal c = None"

definition std_env :: env where
  "std_env = \<lparr>translit = no_entries, decimal = no_decimal, max_str_digits = 4300\<rparr>"

definition Product :: pystr where
  "Product = ascii ''Product''"

text \<open>
  The two rows of the health example: one with the Category \<open>Bao hiem suc khoe toan dien\<close>
  written with its Vietnamese diacritics, one with the Category \<open>medical plan\<close>; and the
  requested category \<open>suc khoe\<close>, with its diacritics as well.
\<close>

definition bao_hiem_suc_khoe :: pystr where
  "bao_hiem_suc_khoe =
     ascii ''B'' @ [0x1EA3] @ ascii ''o hi'' @ [0x1EC3] @ ascii ''m s'' @ [0x1EE9] @ ascii ''c kh''
       @ [0x1ECF] @ ascii ''e to'' @ [0xE0] @ ascii ''n di'' @ [0x1EC7] @ ascii ''n''"

definition suc_khoe :: pystr where
  "suc_khoe = ascii ''s'' @ [0x1EE9] @ ascii ''c kh'' @ [0x1ECF] @ ascii ''e''"

definition health_csv :: frame where
  "health_csv =
     \<lparr>columns = [Product, Category],
      rows = [[(Product, PStr (ascii ''A'')), (Category, PStr bao_hiem_suc_khoe)],
              [(Product, PStr (ascii ''B'')), (Category, PStr (ascii ''medical plan''))]]\<rparr>"

definition always :: "frame \<Rightarrow> encoding \<Rightarrow> frame option" where
  "always df enc = Some df"

definition never :: "encoding \<Rightarrow> frame option" where
  "never enc = None"

text \<open>A file with one product whose Category cell is empty, which pandas reads as NaN.\<close>

definition nan_csv :: frame where
  "nan_csv = \<lparr>columns = [Product, Category], rows = [[(Product, PStr (ascii ''A'')), (Category, PNaN)]]\<rparr>"

text \<open>Five products of one category, and a file without the Category column.\<close>

definition five_csv :: frame where
  "five_csv =
     \<lparr>columns = [Product, Category],
      rows = map (\<lambda>p. [(Product, PStr (ascii p)), (Category, PStr (ascii ''travel''))])
               [''A'', ''B'', ''C'', ''D'', ''E'']\<rparr>"

definition no_category_csv :: frame where
  "no_category_csv = \<lparr>columns = [Product], rows = [[(Product, PStr (ascii ''A''))]]\<rparr>"

definition tai_nan_accented :: pystr where
  "tai_nan_accented = ascii ''Tai N'' @ [0x1EA1] @ ascii ''n''"

section \<open>Facts about the text functions\<close>

lemmas text_defs = ascii_def is_space_def lstrip_def rstrip_def strip_def lower_cp_def lower_def
  x_data_def get_repl_str_def unidecode_def normalize_def

lemma ascii_eq_iff: "ascii s = ascii t \<longleftrightarrow> s = t"
  by (simp add: ascii_def inj_on_def)

lemma x_data_ascii: "map_of x_data c = Some r \<Longrightarrow> d \<in> set (ascii r) \<Longrightarrow> d < 0x80"
  by (auto simp: x_data_def ascii_def split: if_splits)

lemma get_repl_str_ascii: "d \<in> set (get_repl_str tbl c) \<Longrightarrow> d < 0x80"
proof (cases "c < 0x80")
  case True
  assume "d \<in> set (get_repl_str tbl c)"
  with True show ?thesis by (simp add: get_repl_str_def)
next
  case False
  assume d: "d \<in> set (get_repl_str tbl c)"
  show ?thesis
  proof (cases "map_of x_data c")
    case None
    with False d have "d \<in> unat ` set (tbl c)" by (simp add: get_repl_str_def)
    then obtain w :: "7 word" where "d = unat w" by blast
    moreover have "unat w < 2 ^ LENGTH(7)" by (rule unsigned_less)
    ultimately show ?thesis by simp
  next
    case (Some r)
    with False d have "d \<in> set (ascii r)" by (simp add: get_repl_str_def)
    with Some show ?thesis by (rule x_data_ascii)
  qed
qed

lemma unidecode_ascii: "c \<in> set (unidecode tbl s) \<Longrightarrow> c < 0x80"
  by (auto simp: unidecode_def dest: get_repl_str_ascii)

lemma unidecode_id: "\<forall>c\<in>set s. c < 0x80 \<Longrightarrow> unidecode tbl s = s"
  by (induction s) (simp_all add: unidecode_def get_repl_str_def)

lemma lower_cp_idem: "lower_cp (lower_cp c) = lower_cp c"
  by (simp add: lower_cp_def)

lemma lower_cp_ascii: "c < 0x80 \<Longrightarrow> lower_cp c < 0x80"
  by (simp add: lower_cp_def)

lemma set_strip: "set (strip s) \<subseteq> set s"
proof -
  have "set (rstrip t) \<subseteq> set t" for t
    using set_dropWhileD [of _ is_space "rev t"] by (auto simp: rstrip_def)
  moreover have "set (lstrip s) \<subseteq> set s"
    by (auto simp: lstrip_def dest: set_dropWhileD)
  ultimately show ?thesis unfolding strip_def by blast
qed

lemma rstrip_prefix: "prefix (rstrip t) t"
proof -
  have "rev t = takeWhile is_space (rev t) @ dropWhile is_space (rev t)" by simp
  then have "t = rev (dropWhile is_space (rev t)) @ rev (takeWhile is_space (rev t))"
    by (metis rev_append rev_rev_ident)
  then show ?thesis unfolding rstrip_def by (metis prefixI)
qed

lemma lstrip_rstrip_lstrip: "lstrip (rstrip (lstrip s)) = rstrip (lstrip s)"
proof (cases "rstrip (lstrip s)")
  case Nil
  then show ?thesis by (simp add: lstrip_def)
next
  case (Cons c cs)
  from rstrip_prefix [of "lstrip s"] Cons obtain zs where t: "lstrip s = c # cs @ zs"
    by (auto simp: prefix_def)
  then have "\<not> is_space c"
    using hd_dropWhile [of is_space s] by (simp add: lstrip_def)
  with Cons show ?thesis by (simp add: lstrip_def)
qed

lemma strip_idem: "strip (strip s) = strip s"
  by (simp add: strip_def lstrip_rstrip_lstrip) (simp add: rstrip_def)

lemma lower_strip_lower: "lower (strip (lower s)) = strip (lower s)"
proof -
  have "\<forall>c\<in>set (strip (lower s)). lower_cp c = c"
    using set_strip [of "lower s"] by (auto simp: lower_def lower_cp_idem)
  then show ?thesis by (simp add: lower_def map_idI)
qed

section \<open>Facts about the canonical lookup\<close>

lemma fill_syns_apply:
  "fill_syns tbl canon syns m k =
     (case map_of (rev (map (\<lambda>s. (lower (unidecode tbl s), canon)) syns)) k of
        Some c \<Rightarrow> Some c | None \<Rightarrow> m k)"
  by (induction syns arbitrary: m) (auto simp: map_add_def split: option.splits)

lemma fill_canonical_apply:
  "fill_canonical tbl entries m k =
     (case map_of (rev (keyed tbl entries)) k of Some c \<Rightarrow> Some c | None \<Rightarrow> m k)"
proof (induction entries arbitrary: m)
  case Nil
  show ?case by (simp add: keyed_def)
next
  case (Cons e entries)
  obtain canon syns where e: "e = (canon, syns)" by (cases e)
  show ?case
    by (simp add: e Cons.IH fill_syns_apply keyed_def map_add_def split: option.splits)
qed

lemma CANONICAL_map_of: "CANONICAL tbl = map_of (rev (keyed tbl CATEGORY_SYNONYMS))"
  by (rule ext) (simp add: CANONICAL_def fill_canonical_apply split: option.splits)

text \<open>The keys of the table, computed: every synonym transliterated and lowered.\<close>

lemma keyed_table:
  "keyed tbl CATEGORY_SYNONYMS = map (\<lambda>(k, c). (ascii k, ascii c))
    [(''tai nan'', ''accident''),
     (''tai-nan'', ''accident''),
     (''tai nan'', ''accident''),
     (''tai nan ca nhan'', ''accident''),
     (''tai nan lao dong'', ''accident''),
     (''personal accident'', ''accident''),
     (''accident'', ''accident''),
     (''pa'', ''accident''),
     (''tai nan 24/7'', ''accident''),
     (''suc khoe'', ''health''),
     (''suc khoe'', ''health''),
     (''suc-khoe'', ''health''),
     (''health'', ''health''),
     (''medical'', ''health''),
     (''healthcare'', ''health''),
     (''cham soc suc khoe'', ''health''),
     (''vien phi'', ''health''),
     (''benh vien'', ''health''),
     (''hospitalization'', ''health''),
     (''nhan tho'', ''life''),
     (''nhan tho'', ''life''),
     (''nhan-tho'', ''life''),
     (''life'', ''life''),
     (''life insurance'', ''life''),
     (''term life'', ''life''),
     (''whole life'', ''life''),
     (''bao ve tai chinh'', ''life''),
     (''bao ve gia dinh'', ''life''),
     (''benh hiem ngheo'', ''critical illness''),
     (''critical illness'', ''critical illness''),
     (''ci'', ''critical illness''),
     (''ung thu'', ''critical illness''),
     (''cancer'', ''critical illness''),
     (''tim mach'', ''critical illness''),
     (''dot quy'', ''critical illness''),
     (''tai bien'', ''critical illness''),
     (''man tinh'', ''critical illness''),
     (''man tinh'', ''critical illness''),
     (''benh nang'', ''critical illness''),
     (''benh nghiem trong'', ''critical illness''),
     (''benh vien'', ''hospital''),
     (''benh vien'', ''hospital''),
     (''hospital'', ''hospital''),
     (''hospitalization'', ''hospital''),
     (''nam vien'', ''hospital''),
     (''vien phi'', ''hospital''),
     (''medical cost'', ''hospital''),
     (''inpatient'', ''hospital''),
     (''outpatient'', ''hospital''),
     (''ngoai tru'', ''hospital''),
     (''noi tru'', ''hospital''),
     (''phau thuat'', ''hospital''),
     (''surgery'', ''hospital''),
     (''tre em'', ''children''),
     (''tre con'', ''children''),
     (''tre nho'', ''children''),
     (''child'', ''children''),
     (''children'', ''children''),
     (''kid'', ''children''),
     (''kids'', ''children''),
     (''bao hiem tre em'', ''children''),
     (''student insurance'', ''children''),
     (''baby'', ''children''),
     (''mam non'', ''children''),
     (''hoc sinh'', ''children''),
     (''du lich'', ''travel''),
     (''du-lich'', ''travel''),
     (''travel'', ''travel''),
     (''travel insurance'', ''travel''),
     (''trip'', ''travel''),
     (''holiday'', ''travel''),
     (''tour'', ''travel''),
     (''overseas'', ''travel''),
     (''bao hiem du lich'', ''travel''),
     (''bao hiem quoc te'', ''travel''),
     (''nha khoa'', ''dental''),
     (''dental'', ''dental''),
     (''rang'', ''dental''),
     (''rang mieng'', ''dental''),
     (''cham soc rang'', ''dental''),
     (''chinh nha'', ''dental''),
     (''nieng rang'', ''dental''),
     (''nha si'', ''dental''),
     (''tram rang'', ''dental''),
     (''lam rang'', ''dental''),
     (''nha khoa tham my'', ''dental''),
     (''thi luc'', ''vision''),
     (''mat'', ''vision''),
     (''kinh'', ''vision''),
     (''mat kinh'', ''vision''),
     (''vision'', ''vision''),
     (''eye'', ''vision''),
     (''eye care'', ''vision''),
     (''optical'', ''vision''),
     (''optometry'', ''vision''),
     (''kham mat'', ''vision''),
     (''bao hiem mat'', ''vision'')]"
  by (simp add: keyed_def CATEGORY_SYNONYMS_def text_defs)

lemma keyed_strip:
  "\<forall>(k, c) \<in> set (keyed tbl CATEGORY_SYNONYMS). strip k = k"
  unfolding keyed_table by (simp add: text_defs)

lemma keyed_member:
  "(canon, syns) \<in> set entries \<Longrightarrow> s \<in> set syns \<Longrightarrow>
     (lower (unidecode tbl s), canon) \<in> set (keyed tbl entries)"
  by (auto simp: keyed_def intro!: bexI [of _ "(canon, syns)"])

lemma keyed_append: "keyed tbl (xs @ ys) = keyed tbl xs @ keyed tbl ys"
  by (simp add: keyed_def)

lemma keyed_Cons:
  "keyed tbl ((canon, syns) # ys) =
     map (\<lambda>s. (lower (unidecode tbl s), canon)) syns @ keyed tbl ys"
  by (simp add: keyed_def)

lemma map_of_rev_last:
  "map_of (rev ps) k =
     (if filter (\<lambda>p. fst p = k) ps = [] then None
      else Some (snd (last (filter (\<lambda>p. fst p = k) ps))))"
proof (induction ps rule: rev_induct)
  case Nil
  show ?case by simp
next
  case (snoc p ps)
  then show ?case by (cases p) auto
qed

lemma map_of_rev_member:
  "(k, v) \<in> set ps \<Longrightarrow> map_of (rev ps) k = Some (snd (last (filter (\<lambda>p. fst p = k) ps)))"
  by (force simp: map_of_rev_last filter_empty_conv)

lemma map_of_rev_None: "k \<notin> fst ` set ps \<Longrightarrow> map_of (rev ps) k = None"
  by (simp add: map_of_eq_None_iff)

lemma normalize_declared:
  assumes "(canon, syns) \<in> set CATEGORY_SYNONYMS" and "s \<in> set syns"
  shows "normalize tbl (PStr s) = lower (unidecode tbl s)"
proof -
  from assms have "(lower (unidecode tbl s), canon) \<in> set (keyed tbl CATEGORY_SYNONYMS)"
    by (rule keyed_member)
  with keyed_strip [of tbl] have "strip (lower (unidecode tbl s)) = lower (unidecode tbl s)"
    by blast
  then show ?thesis by (simp add: normalize_def)
qed

lemma fill_canonical_last:
  assumes "entries = before @ (canon, syns) # after"
    and "s \<in> set syns"
    and "\<forall>(canon', syns') \<in> set after. \<forall>s' \<in> set syns'.
           lower (unidecode tbl s') \<noteq> lower (unidecode tbl s)"
  shows "fill_canonical tbl entries Map.empty (lower (unidecode tbl s)) = Some canon"
proof -
  let ?k = "lower (unidecode tbl s)"
  have "?k \<notin> fst ` set (keyed tbl after)"
    using assms(3) by (fastforce simp: keyed_def)
  then have after: "map_of (rev (keyed tbl after)) ?k = None"
    by (rule map_of_rev_None)
  have "(?k, canon) \<in> set (rev (map (\<lambda>s. (lower (unidecode tbl s), canon)) syns))"
    using assms(2) by auto
  then have "map_of (rev (map (\<lambda>s. (lower (unidecode tbl s), canon)) syns)) ?k \<noteq> None"
    by (metis map_of_eq_None_iff fst_conv imageI)
  then obtain c where c: "map_of (rev (map (\<lambda>s. (lower (unidecode tbl s), canon)) syns)) ?k = Some c"
    by blast
  then have "(?k, c) \<in> set (rev (map (\<lambda>s. (lower (unidecode tbl s), canon)) syns))"
    by (rule map_of_SomeD)
  then have "c = canon" by auto
  with c after show ?thesis
    by (simp add: assms(1) fill_canonical_apply keyed_append keyed_Cons map_add_def)
qed

section \<open>The claims\<close>

text \<open>
  C3, as the code has it. \<open>normalize\<close> removes diacritics and case but keeps the
  hyphen: \<open>Tai Nan\<close> written with the dot below its second \<open>a\<close>, and \<open>TAI NAN\<close>, both
  give \<open>tai nan\<close>, while
  \<open>tai-nan\<close> stays \<open>tai-nan\<close>. The three spellings meet one step later: each is a key
  of the canonical lookup and resolves to \<open>accident\<close>.
\<close>

theorem normalize_spellings:
  "normalize tbl (PStr tai_nan_accented) = ascii ''tai nan'' \<and>
   normalize tbl (PStr (ascii ''TAI NAN'')) = ascii ''tai nan'' \<and>
   normalize tbl (PStr (ascii ''tai-nan'')) = ascii ''tai-nan'' \<and>
   resolve tbl (PStr tai_nan_accented) = ascii ''accident'' \<and>
   resolve tbl (PStr (ascii ''TAI NAN'')) = ascii ''accident'' \<and>
   resolve tbl (PStr (ascii ''tai-nan'')) = ascii ''accident''"
proof -
  have n1: "normalize tbl (PStr tai_nan_accented) = ascii ''tai nan''"
    by (simp add: text_defs tai_nan_accented_def)
  have n2: "normalize tbl (PStr (ascii ''TAI NAN'')) = ascii ''tai nan''"
    by (simp add: text_defs)
  have n3: "normalize tbl (PStr (ascii ''tai-nan'')) = ascii ''tai-nan''"
    by (simp add: text_defs)
  have l1: "CANONICAL tbl (ascii ''tai nan'') = Some (ascii ''accident'')"
    by (simp add: CANONICAL_map_of keyed_table ascii_eq_iff)
  have l3: "CANONICAL tbl (ascii ''tai-nan'') = Some (ascii ''accident'')"
    by (simp add: CANONICAL_map_of keyed_table ascii_eq_iff)
  show ?thesis by (simp add: resolve_def n1 n2 n3 l1 l3)
qed

text \<open>
  C3 as stated fails: the hyphenated spelling does not normalize to the same string as
  the other two.
\<close>

theorem normalize_spellings_counterexample:
  "\<not> (normalize no_entries (PStr tai_nan_accented) = normalize no_entries (PStr (ascii ''tai-nan''))
      \<and> normalize no_entries (PStr (ascii ''tai-nan'')) = normalize no_entries (PStr (ascii ''TAI NAN'')))"
  by (simp add: text_defs tai_nan_accented_def)

text \<open>
  C4: \<open>normalize\<close> is idempotent, on every value it can be given, and gives the empty
  string on \<open>None\<close>.
\<close>

theorem normalize_idempotent:
  "normalize tbl (PStr (normalize tbl x)) = normalize tbl x \<and> normalize tbl PNone = []"
proof (cases "x = PNone")
  case True
  then show ?thesis
    by (simp add: normalize_def unidecode_def lower_def strip_def lstrip_def rstrip_def)
next
  case False
  define y where "y = lower (unidecode tbl (py_str x))"
  have "\<forall>c\<in>set y. c < 0x80"
    using unidecode_ascii [of _ tbl "py_str x"] by (auto simp: y_def lower_def lower_cp_ascii)
  then have "\<forall>c\<in>set (strip y). c < 0x80" using set_strip [of y] by blast
  then have "unidecode tbl (strip y) = strip y" by (rule unidecode_id)
  moreover have "lower (strip y) = strip y" unfolding y_def by (rule lower_strip_lower)
  ultimately have "strip (lower (unidecode tbl (strip y))) = strip y"
    by (simp add: strip_idem)
  with False show ?thesis by (simp add: normalize_def y_def)
qed

text \<open>
  C5, as the code has it. Resolving a synonym \<open>s\<close> declared under a category returns the
  category of the last declaration, in table order, of a synonym with the same key as
  \<open>s\<close>; that is the declaring category itself when no later category declares the key
  again. A value whose normalized form is no key of the lookup resolves to that
  normalized form.
\<close>

theorem resolve_declared:
  "(\<forall>(canon, syns) \<in> set CATEGORY_SYNONYMS. \<forall>s \<in> set syns.
      resolve tbl (PStr s) =
        snd (last (filter (\<lambda>p. fst p = lower (unidecode tbl s)) (keyed tbl CATEGORY_SYNONYMS))))
   \<and> (\<forall>before canon syns after s.
         CATEGORY_SYNONYMS = before @ (canon, syns) # after \<longrightarrow> s \<in> set syns \<longrightarrow>
         (\<forall>(canon', syns') \<in> set after. \<forall>s' \<in> set syns'.
            lower (unidecode tbl s') \<noteq> lower (unidecode tbl s)) \<longrightarrow>
         resolve tbl (PStr s) = canon)
   \<and> (\<forall>c. normalize tbl c \<notin> fst ` set (keyed tbl CATEGORY_SYNONYMS) \<longrightarrow>
          resolve tbl c = normalize tbl c)"
proof (intro conjI ballI allI impI, clarify)
  fix canon syns s
  assume in_table: "(canon, syns) \<in> set CATEGORY_SYNONYMS" and s: "s \<in> set syns"
  then have "(lower (unidecode tbl s), canon) \<in> set (keyed tbl CATEGORY_SYNONYMS)"
    by (rule keyed_member)
  then have "CANONICAL tbl (lower (unidecode tbl s)) =
      Some (snd (last (filter (\<lambda>p. fst p = lower (unidecode tbl s)) (keyed tbl CATEGORY_SYNONYMS))))"
    unfolding CANONICAL_map_of by (rule map_of_rev_member)
  then show "resolve tbl (PStr s) =
      snd (last (filter (\<lambda>p. fst p = lower (unidecode tbl s)) (keyed tbl CATEGORY_SYNONYMS)))"
    by (simp add: resolve_def normalize_declared [OF in_table s])
next
  fix before canon syns after s
  assume split: "CATEGORY_SYNONYMS = before @ (canon, syns) # after" and s: "s \<in> set syns"
    and later: "\<forall>(canon', syns') \<in> set after. \<forall>s' \<in> set syns'.
      lower (unidecode tbl s') \<noteq> lower (unidecode tbl s)"
  have "(canon, syns) \<in> set (before @ (canon, syns) # after)" by simp
  with split have in_table: "(canon, syns) \<in> set CATEGORY_SYNONYMS" by simp
  from split s later have "CANONICAL tbl (lower (unidecode tbl s)) = Some canon"
    unfolding CANONICAL_def by (rule fill_canonical_last)
  then show "resolve tbl (PStr s) = canon"
    by (simp add: resolve_def normalize_declared [OF in_table s])
next
  fix c
  assume "normalize tbl c \<notin> fst ` set (keyed tbl CATEGORY_SYNONYMS)"
  then have "CANONICAL tbl (normalize tbl c) = None"
    unfolding CANONICAL_map_of by (rule map_of_rev_None)
  then show "resolve tbl c = normalize tbl c" by (simp add: resolve_def)
qed

text \<open>
  The witness for C5: \<open>benh vien\<close> is declared under \<open>health\<close> and again under
  \<open>hospital\<close>, and resolves to the later one; \<open>medical\<close> is declared under \<open>health\<close>
  only and resolves to it; \<open>dentist\<close> is no key and resolves to itself.
\<close>

theorem resolve_declared_witness:
  "resolve no_entries (PStr (ascii ''benh vien'')) = ascii ''hospital'' \<and>
   resolve no_entries (PStr (ascii ''medical'')) = ascii ''health'' \<and>
   resolve no_entries (PStr (ascii ''Dentist'')) = ascii ''dentist''"
proof -
  have key: "lower (unidecode no_entries (ascii ''benh vien'')) = ascii ''benh vien''"
    by (simp add: text_defs)
  have health: "(ascii ''health'', synonyms_of (ascii ''health'')) \<in> set CATEGORY_SYNONYMS"
    by (simp add: synonyms_of_def CATEGORY_SYNONYMS_def ascii_eq_iff)
  have benh_vien: "ascii ''benh vien'' \<in> set (synonyms_of (ascii ''health''))"
    by (simp add: synonyms_of_def CATEGORY_SYNONYMS_def ascii_eq_iff)
  have medical: "ascii ''medical'' \<in> set (synonyms_of (ascii ''health''))"
    by (simp add: synonyms_of_def CATEGORY_SYNONYMS_def ascii_eq_iff)
  have split: "CATEGORY_SYNONYMS =
      take 1 CATEGORY_SYNONYMS @ (ascii ''health'', synonyms_of (ascii ''health''))
        # drop 2 CATEGORY_SYNONYMS"
    by (simp add: synonyms_of_def CATEGORY_SYNONYMS_def ascii_eq_iff)
  have later: "\<forall>(canon', syns') \<in> set (drop 2 CATEGORY_SYNONYMS). \<forall>s' \<in> set syns'.
      lower (unidecode no_entries s') \<noteq> lower (unidecode no_entries (ascii ''medical''))"
    by (simp add: CATEGORY_SYNONYMS_def text_defs)
  have dentist: "normalize no_entries (PStr (ascii ''Dentist'')) = ascii ''dentist''"
    by (simp add: text_defs)
  have no_key: "ascii ''dentist'' \<notin> fst ` set (keyed no_entries CATEGORY_SYNONYMS)"
    unfolding keyed_table by (simp add: ascii_eq_iff)
  note r = resolve_declared [of no_entries]
  from r health benh_vien have "resolve no_entries (PStr (ascii ''benh vien'')) =
      snd (last (filter (\<lambda>p. fst p = lower (unidecode no_entries (ascii ''benh vien'')))
        (keyed no_entries CATEGORY_SYNONYMS)))"
    by blast
  also have "\<dots> = ascii ''hospital''"
    unfolding key keyed_table by (simp add: ascii_eq_iff)
  finally have first: "resolve no_entries (PStr (ascii ''benh vien'')) = ascii ''hospital''" .
  from r split medical later
  have second: "resolve no_entries (PStr (ascii ''medical'')) = ascii ''health''"
    by blast
  from r dentist no_key
  have third: "resolve no_entries (PStr (ascii ''Dentist'')) = ascii ''dentist''"
    by (metis (no_types, lifting))
  from first second third show ?thesis by simp
qed

text \<open>
  C5 as stated fails: \<open>benh vien\<close> is a synonym declared under \<open>health\<close>, and resolving
  it does not return \<open>health\<close>.
\<close>

theorem resolve_declared_counterexample:
  "ascii ''benh vien'' \<in> set (synonyms_of (ascii ''health'')) \<and>
   resolve no_entries (PStr (ascii ''benh vien'')) \<noteq> ascii ''health''"
proof -
  have "ascii ''benh vien'' \<in> set (synonyms_of (ascii ''health''))"
    by (simp add: synonyms_of_def CATEGORY_SYNONYMS_def ascii_eq_iff)
  moreover have "normalize no_entries (PStr (ascii ''benh vien'')) = ascii ''benh vien''"
    by (simp add: text_defs)
  moreover have "CANONICAL no_entries (ascii ''benh vien'') = Some (ascii ''hospital'')"
    by (simp add: CANONICAL_map_of keyed_table ascii_eq_iff)
  ultimately show ?thesis by (simp add: resolve_def ascii_eq_iff)
qed

text \<open>
  C6: the last registration wins. Whatever the entries before it declare, a key maps to
  the category of the last entry that declares it.
\<close>

theorem canonical_last_wins:
  assumes "entries = before @ (canon, syns) # after"
    and "s \<in> set syns"
    and "\<forall>(canon', syns') \<in> set after. \<forall>s' \<in> set syns'.
           lower (unidecode tbl s') \<noteq> lower (unidecode tbl s)"
  shows "fill_canonical tbl entries Map.empty (lower (unidecode tbl s)) = Some canon"
  using assms by (rule fill_canonical_last)

text \<open>
  The witness for C6, on the table of the source: \<open>health\<close> declares \<open>benh vien\<close>,
  \<open>hospital\<close> declares it later, no category after \<open>hospital\<close> does, and the lookup
  maps it to \<open>hospital\<close>.
\<close>

theorem canonical_last_wins_witness:
  "ascii ''benh vien'' \<in> set (synonyms_of (ascii ''health'')) \<and>
   ascii ''benh vien'' \<in> set (synonyms_of (ascii ''hospital'')) \<and>
   CANONICAL no_entries (ascii ''benh vien'') = Some (ascii ''hospital'')"
proof -
  have split: "CATEGORY_SYNONYMS =
      take 4 CATEGORY_SYNONYMS @ (ascii ''hospital'', synonyms_of (ascii ''hospital''))
        # drop 5 CATEGORY_SYNONYMS"
    by (simp add: synonyms_of_def CATEGORY_SYNONYMS_def ascii_eq_iff)
  have hospital: "ascii ''benh vien'' \<in> set (synonyms_of (ascii ''hospital''))"
    by (simp add: synonyms_of_def CATEGORY_SYNONYMS_def ascii_eq_iff)
  have health: "ascii ''benh vien'' \<in> set (synonyms_of (ascii ''health''))"
    by (simp add: synonyms_of_def CATEGORY_SYNONYMS_def ascii_eq_iff)
  have key: "lower (unidecode no_entries (ascii ''benh vien'')) = ascii ''benh vien''"
    by (simp add: text_defs)
  have later: "\<forall>(canon', syns') \<in> set (drop 5 CATEGORY_SYNONYMS). \<forall>s' \<in> set syns'.
      lower (unidecode no_entries s') \<noteq> lower (unidecode no_entries (ascii ''benh vien''))"
    by (simp add: CATEGORY_SYNONYMS_def text_defs)
  from canonical_last_wins [OF split hospital later] key health hospital
  show ?thesis by (simp add: CANONICAL_def)
qed

section \<open>Facts about loading and selecting\<close>

lemma read_csv_any_never: "read_csv_any never = Inl RuntimeError"
  by (simp add: read_csv_any_def never_def)

lemma read_csv_any_always: "read_csv_any (always df) = Inr df"
  by (simp add: read_csv_any_def always_def)

lemma read_csv_any_error: "read_csv_any rd = Inl e \<Longrightarrow> e = RuntimeError"
  by (auto simp: read_csv_any_def split: option.splits)

lemma filter_all_True: "map fst (filter snd (zip xs (replicate (length xs) True))) = xs"
  by (induction xs) simp_all

lemma filter_all_False: "map fst (filter snd (zip xs (replicate n False))) = []"
  by (induction xs arbitrary: n) (simp, case_tac n, simp_all)

lemma mask_of_no_wanted: "mask_of tbl df [] = Inr (replicate (length (rows df)) True)"
  by (simp add: mask_of_def)

lemma str_contains_compiled: "str_contains (PatRe r) False col = replicate (length col) False"
  by (induction col) (simp_all add: str_contains_def)

lemma and_all_False:
  "map (\<lambda>(m, c). m \<and> c) (zip (replicate n True) (replicate n False)) = replicate n False"
  by (induction n) simp_all

lemma mask_of_compiled:
  assumes "category_n \<in> set (columns df)" and "wanted \<noteq> []" and "syns_norm_of tbl wanted \<noteq> []"
  shows "mask_of tbl df wanted = Inr (replicate (length (rows df)) False)"
  using assms
  by (simp add: mask_of_def Let_def getitem_def cat_re_def str_contains_compiled and_all_False)

lemma mask_of_total:
  "category_n \<in> set (columns df) \<Longrightarrow> \<exists>msk. mask_of tbl df wanted = Inr msk"
  by (simp add: mask_of_def Let_def getitem_def)

lemma syns_norm_nonempty:
  "c \<in> set wanted \<Longrightarrow> s \<in> set (synonyms_of c) \<Longrightarrow> s \<noteq> [] \<Longrightarrow> syns_norm_of tbl wanted \<noteq> []"
  by (auto simp: syns_norm_of_def filter_empty_conv)

lemma cell_dict_set_other: "c \<noteq> k \<Longrightarrow> cell (dict_set k v r) c = cell r c"
  by (induction r) (auto simp: cell_def)

lemma cell_dict_set_same: "cell (dict_set k v r) k = v"
  by (induction r) (auto simp: cell_def)

lemma to_record_self: "distinct (map fst r) \<Longrightarrow> to_record (map fst r) r = r"
proof (induction r)
  case Nil
  show ?case by (simp add: to_record_def)
next
  case (Cons p r)
  obtain k v where p: "p = (k, v)" by (cases p)
  from Cons.prems p have k: "k \<notin> fst ` set r" and d: "distinct (map fst r)" by auto
  have "map (\<lambda>c. (c, cell ((k, v) # r) c)) (map fst r) = map (\<lambda>c. (c, cell r c)) (map fst r)"
    using k by (intro map_cong) (auto simp: cell_def)
  also have "\<dots> = r" using Cons.IH [OF d] by (simp add: to_record_def)
  finally show ?case by (simp add: p to_record_def cell_def)
qed

lemma to_record_dict_set:
  "k \<notin> set cols \<Longrightarrow> to_record cols (dict_set k v r) = to_record cols r"
proof -
  assume k: "k \<notin> set cols"
  have "cell (dict_set k v r) c = cell r c" if "c \<in> set cols" for c
    using that k by (intro cell_dict_set_other) blast
  then show ?thesis unfolding to_record_def by (intro map_cong) auto
qed

lemma loaded_records:
  assumes load: "load_csv tbl (File rd) = Inr df"
    and raw: "read_csv_any rd = Inr raw"
    and rect: "rectangular raw"
    and fresh: "category_n \<notin> set (columns raw)"
  shows "map (to_record (filter (\<lambda>c. c \<noteq> category_n) (columns df))) (rows df) = rows raw"
proof -
  define vals where "vals = map (\<lambda>r. PStr (normalize tbl (cell r Category))) (rows raw)"
  from load raw have df: "df = setitem category_n vals raw"
    by (simp add: load_csv_def getitem_def vals_def comp_def split: if_splits)
  have cols: "filter (\<lambda>c. c \<noteq> category_n) (columns df) = columns raw"
    using fresh by (auto simp: df setitem_def filter_id_conv)
  have each: "to_record (columns raw) (dict_set category_n v r) = r" if "r \<in> set (rows raw)" for r v
  proof -
    from rect that have r: "map fst r = columns raw" and d: "distinct (map fst r)"
      by (auto simp: rectangular_def list_all_iff)
    from fresh have "to_record (columns raw) (dict_set category_n v r) = to_record (columns raw) r"
      by (rule to_record_dict_set)
    with to_record_self [OF d] r show ?thesis by simp
  qed
  have "map (to_record (columns raw)) (map (\<lambda>(r, v). dict_set category_n v r) (zip (rows raw) vals))
        = map fst (zip (rows raw) vals)"
    by (auto simp: each dest: set_zip_leftD)
  also have "\<dots> = rows raw" by (simp add: vals_def)
  finally show ?thesis by (simp add: cols) (simp add: df setitem_def)
qed

lemma load_csv_has_category_n:
  "load_csv tbl src = Inr df \<Longrightarrow> category_n \<in> set (columns df)"
  by (auto simp: load_csv_def setitem_def getitem_def split: source.splits sum.splits if_splits)


lemma recommend_all_rows:
  assumes "ensure_loaded (translit E) src df_cache = Inr (Some df)"
    and "categories b = None \<or> categories b = Some []" and "limit_raw b = None"
  shows "recommend E src df_cache b =
      (Some df,
       (Ok_items (length (rows df))
          (map (to_record (filter (\<lambda>c. c \<noteq> category_n) (columns df))) (rows df)), 200))"
  using assms
  by (auto simp: recommend_def select_def Let_def wanted_of_def mask_of_no_wanted filter_all_True)

lemma parse_limit_error:
  "parse_limit E l = Inl e \<longleftrightarrow> (\<exists>x. l = Some (JFloat x) \<and> int_of_float x = Inl e)"
proof (cases l)
  case None
  then show ?thesis by simp
next
  case (Some j)
  then show ?thesis by (cases j) (auto split: option.splits sum.splits)
qed

lemma recommend_limit_error:
  assumes "ensure_loaded (translit E) src df_cache = Inr (Some df)"
    and "parse_limit E (limit_raw b) = Inl e"
  shows "recommend E src df_cache b = (Some df, (Error_detail e, 500))"
  using assms by (simp add: recommend_def select_def)

lemma recommend_succeeds:
  assumes "ensure_loaded (translit E) src df_cache = Inr (Some df)"
    and "category_n \<in> set (columns df)"
    and "parse_limit E (limit_raw b) = Inr lmt"
  shows "\<exists>n items. recommend E src df_cache b = (Some df, (Ok_items n items, 200))"
proof -
  obtain msk where
    "mask_of (translit E) df
       (wanted_of (translit E) (case categories b of None \<Rightarrow> [] | Some cs \<Rightarrow> cs)) = Inr msk"
    using mask_of_total [OF assms(2)] by blast
  with assms(1,3) show ?thesis by (simp add: recommend_def select_def Let_def)
qed

text \<open>
  What line 146 does to a request that names a category: the compiled pattern is tested
  with \<open>in\<close>, no cell passes, and the response is empty.
\<close>

lemma recommend_compiled:
  assumes loaded: "ensure_loaded (translit E) src df_cache = Inr (Some df)"
    and col: "category_n \<in> set (columns df)"
    and lmt: "parse_limit E (limit_raw b) = Inr lmt"
    and cats: "categories b = Some cats" "c \<in> set cats"
    and syn: "s \<in> set (synonyms_of (resolve (translit E) c))" "s \<noteq> []"
  shows "recommend E src df_cache b = (Some df, (Ok_items 0 [], 200))"
proof -
  let ?wanted = "wanted_of (translit E) cats"
  from cats(2) have w: "resolve (translit E) c \<in> set ?wanted" by (simp add: wanted_of_def)
  then have ne: "?wanted \<noteq> []" by auto
  from w syn have "syns_norm_of (translit E) ?wanted \<noteq> []" by (rule syns_norm_nonempty)
  with col ne have "mask_of (translit E) df ?wanted = Inr (replicate (length (rows df)) False)"
    by (rule mask_of_compiled)
  with loaded lmt cats(1) show ?thesis
    by (cases lmt) (simp_all add: recommend_def select_def Let_def filter_all_False)
qed

section \<open>Facts about the concrete inputs\<close>

lemma names_distinct:
  "Product \<noteq> Category" "Category \<noteq> Product" "category_n \<noteq> Product" "category_n \<noteq> Category"
  "Product \<noteq> category_n" "Category \<noteq> category_n"
  by (simp_all add: Product_def Category_def category_n_def ascii_eq_iff)

lemma std_env_simps:
  "translit std_env = no_entries" "decimal std_env = no_decimal" "max_str_digits std_env = 4300"
  by (simp_all add: std_env_def)

lemma five_loaded:
  "\<exists>df. ensure_loaded no_entries (File (always five_csv)) None = Inr (Some df) \<and>
        load_csv no_entries (File (always five_csv)) = Inr df \<and>
        length (rows df) = 5"
  by (simp add: ensure_loaded_def load_csv_def read_csv_any_always getitem_def five_csv_def
      setitem_def)

lemma five_rectangular: "rectangular five_csv \<and> category_n \<notin> set (columns five_csv)"
  by (simp add: rectangular_def five_csv_def names_distinct)

lemma five_unlimited:
  "\<exists>df. ensure_loaded no_entries (File (always five_csv)) None = Inr (Some df) \<and>
        recommend std_env (File (always five_csv)) None \<lparr>categories = None, limit_raw = None\<rparr> =
          (Some df, (Ok_items 5 (rows five_csv), 200))"
proof -
  from five_loaded obtain df where
    e: "ensure_loaded no_entries (File (always five_csv)) None = Inr (Some df)" and
    l: "load_csv no_entries (File (always five_csv)) = Inr df" and n: "length (rows df) = 5"
    by blast
  from five_rectangular have
    "map (to_record (filter (\<lambda>c. c \<noteq> category_n) (columns df))) (rows df) = rows five_csv"
    by (intro loaded_records [OF l read_csv_any_always]) simp_all
  with recommend_all_rows [of std_env "File (always five_csv)" None df
      "\<lparr>categories = None, limit_raw = None\<rparr>"] e n
  show ?thesis by (auto simp: std_env_simps)
qed

lemma health_loaded:
  "\<exists>df. ensure_loaded no_entries (File (always health_csv)) None = Inr (Some df) \<and>
        category_n \<in> set (columns df) \<and>
        cached_categories (Some df) =
          [PStr (ascii ''bao hiem suc khoe toan dien''), PStr (ascii ''medical plan'')]"
  by (simp add: ensure_loaded_def load_csv_def read_csv_any_always getitem_def health_csv_def
      setitem_def cached_categories_def cell_def names_distinct bao_hiem_suc_khoe_def text_defs)

lemma nan_loaded:
  "\<exists>df. ensure_loaded no_entries (File (always nan_csv)) None = Inr (Some df) \<and>
        category_n \<in> set (columns df) \<and>
        cached_categories (Some df) = [PStr (ascii ''nan'')]"
  by (simp add: ensure_loaded_def load_csv_def read_csv_any_always getitem_def nan_csv_def
      setitem_def cached_categories_def cell_def names_distinct text_defs)

lemma synonyms_of_health:
  "ascii ''health'' \<in> set (synonyms_of (ascii ''health''))"
  by (simp add: synonyms_of_def CATEGORY_SYNONYMS_def ascii_eq_iff)

lemma resolve_suc_khoe: "resolve no_entries (PStr suc_khoe) = ascii ''health''"
proof -
  have "normalize no_entries (PStr suc_khoe) = ascii ''suc khoe''"
    by (simp add: text_defs suc_khoe_def)
  moreover have "CANONICAL no_entries (ascii ''suc khoe'') = Some (ascii ''health'')"
    by (simp add: CANONICAL_map_of keyed_table ascii_eq_iff)
  ultimately show ?thesis by (simp add: resolve_def)
qed

lemma resolve_nan: "resolve no_entries (PStr (ascii ''nan'')) = ascii ''nan''"
proof -
  have "normalize no_entries (PStr (ascii ''nan'')) = ascii ''nan''"
    by (simp add: text_defs)
  moreover have "CANONICAL no_entries (ascii ''nan'') = None"
    by (simp add: CANONICAL_map_of keyed_table ascii_eq_iff)
  ultimately show ?thesis by (simp add: resolve_def)
qed

lemma synonyms_of_nan: "synonyms_of (ascii ''nan'') = [ascii ''nan'']"
  by (simp add: synonyms_of_def CATEGORY_SYNONYMS_def ascii_eq_iff)

lemma ascii_nonempty: "ascii (c # cs) \<noteq> []"
  by (simp add: ascii_def)

section \<open>The claims about requests and reloads\<close>

text \<open>
  C7: with no categories requested and no limit, the response holds every row of the
  cached dataset, in order; and a dataset loaded from a CSV whose rows are rectangular
  gives back exactly the rows of the CSV.
\<close>

theorem recommend_without_categories:
  "(ensure_loaded (translit E) src df_cache = Inr (Some df) \<longrightarrow>
      (categories b = None \<or> categories b = Some []) \<longrightarrow> limit_raw b = None \<longrightarrow>
      recommend E src df_cache b =
        (Some df,
         (Ok_items (length (rows df))
            (map (to_record (filter (\<lambda>c. c \<noteq> category_n) (columns df))) (rows df)), 200)))
   \<and> (load_csv tbl (File rd) = Inr df \<longrightarrow> read_csv_any rd = Inr raw \<longrightarrow> rectangular raw \<longrightarrow>
        category_n \<notin> set (columns raw) \<longrightarrow>
        map (to_record (filter (\<lambda>c. c \<noteq> category_n) (columns df))) (rows df) = rows raw)"
  by (intro conjI impI) (rule recommend_all_rows loaded_records; assumption)+

text \<open>The witness for C7: the five products come back, all and in order.\<close>

theorem recommend_without_categories_witness:
  "snd (recommend std_env (File (always five_csv)) None \<lparr>categories = None, limit_raw = None\<rparr>)
     = (Ok_items 5 (rows five_csv), 200)"
proof -
  from five_loaded obtain df where
    e: "ensure_loaded (translit std_env) (File (always five_csv)) None = Inr (Some df)" and
    l: "load_csv no_entries (File (always five_csv)) = Inr df" and n: "length (rows df) = 5"
    by (auto simp: std_env_simps)
  from recommend_without_categories
    [of std_env "File (always five_csv)" None df "\<lparr>categories = None, limit_raw = None\<rparr>"
        no_entries "always five_csv" five_csv]
    e l n five_rectangular read_csv_any_always [of five_csv]
  show ?thesis by simp
qed

text \<open>
  C8: the limits \<open>"all"\<close>, \<open>0\<close>, \<open>-5\<close>, absent, and a string that \<open>int()\<close> rejects all
  give the response of the request without a limit; a positive integer \<open>k\<close> gives the
  first \<open>k\<close> items of that response, in the same order.
\<close>

theorem limit_behaviour:
  "ensure_loaded (translit E) src df_cache = Inr (Some df) \<longrightarrow>
   recommend E src df_cache (b\<lparr>limit_raw := None\<rparr>) = (Some df, (Ok_items n items, 200)) \<longrightarrow>
     ((lmt = Some (JStr (ascii ''all'')) \<or> lmt = Some (JInt 0) \<or> lmt = Some (JInt (- 5)) \<or>
       lmt = None \<or> (\<exists>s. lmt = Some (JStr s) \<and> py_int E s = None)) \<longrightarrow>
        recommend E src df_cache (b\<lparr>limit_raw := lmt\<rparr>) = (Some df, (Ok_items n items, 200)))
     \<and> (0 < k \<longrightarrow>
          recommend E src df_cache (b\<lparr>limit_raw := Some (JInt k)\<rparr>) =
            (Some df, (Ok_items (min (nat k) n) (take (nat k) items), 200)))"
proof (intro impI)
  assume loaded: "ensure_loaded (translit E) src df_cache = Inr (Some df)"
    and unlimited: "recommend E src df_cache (b\<lparr>limit_raw := None\<rparr>) =
      (Some df, (Ok_items n items, 200))"
  let ?cats = "case categories b of None \<Rightarrow> [] | Some cs \<Rightarrow> cs"
  let ?cols = "filter (\<lambda>c. c \<noteq> category_n) (columns df)"
  obtain msk where msk: "mask_of (translit E) df (wanted_of (translit E) ?cats) = Inr msk"
    using loaded unlimited
    by (cases "mask_of (translit E) df (wanted_of (translit E) ?cats)")
      (simp_all add: recommend_def select_def)
  let ?filtered = "map fst (filter snd (zip (rows df) msk))"
  from loaded unlimited msk have items: "items = map (to_record ?cols) ?filtered"
    and n: "n = length ?filtered"
    by (simp_all add: recommend_def select_def Let_def)
  have all: "parse_limit E (Some (JStr (ascii ''all''))) = Inr None"
    by (simp add: text_defs)
  have none: "recommend E src df_cache (b\<lparr>limit_raw := l\<rparr>) = (Some df, (Ok_items n items, 200))"
    if "parse_limit E l = Inr None" for l
    using loaded msk that by (simp add: recommend_def select_def Let_def items n)
  have first: "(lmt = Some (JStr (ascii ''all'')) \<or> lmt = Some (JInt 0) \<or> lmt = Some (JInt (- 5)) \<or>
       lmt = None \<or> (\<exists>s. lmt = Some (JStr s) \<and> py_int E s = None)) \<longrightarrow>
        recommend E src df_cache (b\<lparr>limit_raw := lmt\<rparr>) = (Some df, (Ok_items n items, 200))"
  proof
    assume "lmt = Some (JStr (ascii ''all'')) \<or> lmt = Some (JInt 0) \<or> lmt = Some (JInt (- 5)) \<or>
       lmt = None \<or> (\<exists>s. lmt = Some (JStr s) \<and> py_int E s = None)"
    then have "parse_limit E lmt = Inr None"
      using all by (auto simp: positive_def)
    then show "recommend E src df_cache (b\<lparr>limit_raw := lmt\<rparr>) = (Some df, (Ok_items n items, 200))"
      by (rule none)
  qed
  have second: "0 < k \<longrightarrow>
      recommend E src df_cache (b\<lparr>limit_raw := Some (JInt k)\<rparr>) =
        (Some df, (Ok_items (min (nat k) n) (take (nat k) items), 200))"
    using loaded msk
    by (simp add: recommend_def select_def Let_def items n positive_def take_map min.commute)
  from first second show
    "((lmt = Some (JStr (ascii ''all'')) \<or> lmt = Some (JInt 0) \<or> lmt = Some (JInt (- 5)) \<or>
       lmt = None \<or> (\<exists>s. lmt = Some (JStr s) \<and> py_int E s = None)) \<longrightarrow>
        recommend E src df_cache (b\<lparr>limit_raw := lmt\<rparr>) = (Some df, (Ok_items n items, 200)))
     \<and> (0 < k \<longrightarrow>
          recommend E src df_cache (b\<lparr>limit_raw := Some (JInt k)\<rparr>) =
            (Some df, (Ok_items (min (nat k) n) (take (nat k) items), 200)))"
    by (rule conjI)
qed

text \<open>
  The witness for C8: of the five products, limit 3 returns the first three, and the
  limit string \<open>abc\<close>, which is no integer, returns all five.
\<close>

theorem limit_behaviour_witness:
  "snd (recommend std_env (File (always five_csv)) None
          \<lparr>categories = None, limit_raw = Some (JInt 3)\<rparr>)
     = (Ok_items 3 (take 3 (rows five_csv)), 200) \<and>
   snd (recommend std_env (File (always five_csv)) None
          \<lparr>categories = None, limit_raw = Some (JStr (ascii ''abc''))\<rparr>)
     = (Ok_items 5 (rows five_csv), 200)"
proof -
  from five_unlimited obtain df where
    e: "ensure_loaded (translit std_env) (File (always five_csv)) None = Inr (Some df)" and
    u: "recommend std_env (File (always five_csv)) None
          (\<lparr>categories = None, limit_raw = None\<rparr>\<lparr>limit_raw := None\<rparr>) =
          (Some df, (Ok_items 5 (rows five_csv), 200))"
    by (auto simp: std_env_simps)
  have abc: "py_int std_env (ascii ''abc'') = None"
    by (simp add: py_int_def split_sign_def digit_value_def int_space_def is_space_def ascii_def
        std_env_simps no_decimal_def)
  from limit_behaviour
    [of std_env "File (always five_csv)" None df "\<lparr>categories = None, limit_raw = None\<rparr>"
        5 "rows five_csv" "Some (JStr (ascii ''abc''))" 3]
    e u abc
  show ?thesis by simp
qed

text \<open>
  C9: a reload whose load fails, for whatever reason, leaves \<open>df_cache\<close> as it was and
  answers with the error payload and status 400, which no successful reload returns (a
  successful one replaces the cache and answers with the row count and status 200). The
  load fails when the file is missing, when no encoding reads it, and when what was read
  has no \<open>Category\<close> column.
\<close>

theorem reload_failure_keeps_cache:
  "(load_csv tbl src = Inl e \<longrightarrow>
      reload_csv tbl src df_cache = (df_cache, (Error_detail e, 400)) \<and>
      (\<forall>n. snd (reload_csv tbl src df_cache) \<noteq> (Ok_rows n, 200)))
   \<and> (load_csv tbl src = Inr df \<longrightarrow>
        reload_csv tbl src df_cache = (Some df, (Ok_rows (length (rows df)), 200)))
   \<and> load_csv tbl Missing = Inl FileNotFoundError
   \<and> ((\<forall>enc. rd enc = None) \<longrightarrow> load_csv tbl (File rd) = Inl RuntimeError)
   \<and> (read_csv_any rd = Inr raw \<longrightarrow> Category \<notin> set (columns raw) \<longrightarrow>
        load_csv tbl (File rd) = Inl ValueError)"
  by (simp add: reload_csv_def load_csv_def read_csv_any_def)

text \<open>
  The witness for C9: with the health dataset cached, a reload from a missing file, from
  an unreadable file and from a file without the \<open>Category\<close> column each keep the cache.
\<close>

theorem reload_failure_keeps_cache_witness:
  "reload_csv no_entries Missing (Some health_csv) =
     (Some health_csv, (Error_detail FileNotFoundError, 400)) \<and>
   reload_csv no_entries (File never) (Some health_csv) =
     (Some health_csv, (Error_detail RuntimeError, 400)) \<and>
   reload_csv no_entries (File (always no_category_csv)) (Some health_csv) =
     (Some health_csv, (Error_detail ValueError, 400))"
proof -
  have c: "Category \<notin> set (columns no_category_csv)"
    by (simp add: no_category_csv_def names_distinct)
  have n: "\<forall>enc. never enc = None" by (simp add: never_def)
  from reload_failure_keeps_cache
      [of no_entries Missing FileNotFoundError "Some health_csv" undefined never undefined]
    reload_failure_keeps_cache
      [of no_entries "File never" RuntimeError "Some health_csv" undefined never undefined]
    reload_failure_keeps_cache
      [of no_entries "File (always no_category_csv)" ValueError "Some health_csv" undefined
          "always no_category_csv" no_category_csv]
    c n read_csv_any_always [of no_category_csv]
  show ?thesis by simp
qed

section \<open>Where the code departs from the claims\<close>

text \<open>
  C1 on the code. The dataset holds the two rows of the claim; their cached categories
  are \<open>bao hiem suc khoe toan dien\<close> and \<open>medical plan\<close>. The requested category resolves
  to \<open>health\<close>, whose normalized synonyms include \<open>suc khoe\<close> and \<open>medical\<close>, and these
  are substrings of the two cached categories: by the claim both rows match. The code
  answers with no row, because line 146 passes the compiled pattern with \<open>regex=False\<close>.
\<close>

theorem recommend_suc_khoe_returns_no_row:
  "cached_categories (fst (recommend std_env (File (always health_csv)) None
       \<lparr>categories = Some [PStr suc_khoe], limit_raw = None\<rparr>))
     = [PStr (ascii ''bao hiem suc khoe toan dien''), PStr (ascii ''medical plan'')] \<and>
   resolve no_entries (PStr suc_khoe) = ascii ''health'' \<and>
   ascii ''suc khoe'' \<in> (\<lambda>s. normalize no_entries (PStr s)) ` set (synonyms_of (ascii ''health'')) \<and>
   ascii ''medical'' \<in> (\<lambda>s. normalize no_entries (PStr s)) ` set (synonyms_of (ascii ''health'')) \<and>
   str_in (ascii ''suc khoe'') (ascii ''bao hiem suc khoe toan dien'') \<and>
   str_in (ascii ''medical'') (ascii ''medical plan'') \<and>
   snd (recommend std_env (File (always health_csv)) None
       \<lparr>categories = Some [PStr suc_khoe], limit_raw = None\<rparr>)
     = (Ok_items 0 [], 200)"
proof -
  let ?b = "\<lparr>categories = Some [PStr suc_khoe], limit_raw = None\<rparr>"
  from health_loaded obtain df where
    e: "ensure_loaded (translit std_env) (File (always health_csv)) None = Inr (Some df)" and
    col: "category_n \<in> set (columns df)" and
    cached: "cached_categories (Some df) =
      [PStr (ascii ''bao hiem suc khoe toan dien''), PStr (ascii ''medical plan'')]"
    by (auto simp: std_env_simps)
  have "recommend std_env (File (always health_csv)) None ?b = (Some df, (Ok_items 0 [], 200))"
    using e col
  proof (rule recommend_compiled)
    show "parse_limit std_env (limit_raw ?b) = Inr None" by simp
    show "categories ?b = Some [PStr suc_khoe]" by simp
    show "PStr suc_khoe \<in> set [PStr suc_khoe]" by simp
    show "ascii ''health'' \<in> set (synonyms_of (resolve (translit std_env) (PStr suc_khoe)))"
      by (simp add: std_env_simps resolve_suc_khoe synonyms_of_health)
    show "ascii ''health'' \<noteq> []" by (rule ascii_nonempty)
  qed
  moreover have "ascii ''suc khoe'' \<in>
      (\<lambda>s. normalize no_entries (PStr s)) ` set (synonyms_of (ascii ''health''))"
  proof (rule image_eqI)
    show "ascii ''suc khoe'' = normalize no_entries (PStr (ascii ''suc khoe''))"
      by (simp add: text_defs)
    show "ascii ''suc khoe'' \<in> set (synonyms_of (ascii ''health''))"
      by (simp add: synonyms_of_def CATEGORY_SYNONYMS_def ascii_eq_iff)
  qed
  moreover have "ascii ''medical'' \<in>
      (\<lambda>s. normalize no_entries (PStr s)) ` set (synonyms_of (ascii ''health''))"
  proof (rule image_eqI)
    show "ascii ''medical'' = normalize no_entries (PStr (ascii ''medical''))"
      by (simp add: text_defs)
    show "ascii ''medical'' \<in> set (synonyms_of (ascii ''health''))"
      by (simp add: synonyms_of_def CATEGORY_SYNONYMS_def ascii_eq_iff)
  qed
  moreover have "str_in (ascii ''suc khoe'') (ascii ''bao hiem suc khoe toan dien'')"
    by (simp add: ascii_def)
  moreover have "str_in (ascii ''medical'') (ascii ''medical plan'')"
    by (simp add: ascii_def)
  ultimately show ?thesis using cached resolve_suc_khoe by simp
qed

text \<open>
  C2 on the code. A limit that \<open>json\<close> reads as a non-finite float (\<^verbatim>\<open>1e999\<close>,
  \<^verbatim>\<open>NaN\<close>) reaches the unguarded \<open>int(limit_raw)\<close> of line 129; the exception is caught
  by the handler of the whole function, and the response is the error payload with
  status 500.
\<close>

theorem recommend_non_finite_limit:
  "snd (recommend std_env (File (always health_csv)) None
       \<lparr>categories = Some [PStr (ascii ''health'')], limit_raw = Some (JFloat PosInf)\<rparr>)
     = (Error_detail OverflowError, 500) \<and>
   snd (recommend std_env (File (always health_csv)) None
       \<lparr>categories = Some [PStr (ascii ''health'')], limit_raw = Some (JFloat NotANumber)\<rparr>)
     = (Error_detail ValueError, 500)"
proof -
  from health_loaded obtain df where
    e: "ensure_loaded (translit std_env) (File (always health_csv)) None = Inr (Some df)"
    by (auto simp: std_env_simps)
  show ?thesis
    by (simp add: recommend_limit_error [OF e])
qed

text \<open>
  C10 on the code. The row's missing Category is cached as the string \<open>nan\<close>; the
  requested category \<open>nan\<close> resolves to itself and is a substring of that string, so by
  the claim the row matches. The code answers with no row, for the reason given at C1.
\<close>

theorem recommend_nan_returns_no_row:
  "cached_categories (fst (recommend std_env (File (always nan_csv)) None
       \<lparr>categories = Some [PStr (ascii ''nan'')], limit_raw = None\<rparr>))
     = [PStr (ascii ''nan'')] \<and>
   resolve no_entries (PStr (ascii ''nan'')) = ascii ''nan'' \<and>
   synonyms_of (ascii ''nan'') = [ascii ''nan''] \<and>
   str_in (ascii ''nan'') (ascii ''nan'') \<and>
   snd (recommend std_env (File (always nan_csv)) None
       \<lparr>categories = Some [PStr (ascii ''nan'')], limit_raw = None\<rparr>)
     = (Ok_items 0 [], 200)"
proof -
  let ?b = "\<lparr>categories = Some [PStr (ascii ''nan'')], limit_raw = None\<rparr>"
  from nan_loaded obtain df where
    e: "ensure_loaded (translit std_env) (File (always nan_csv)) None = Inr (Some df)" and
    col: "category_n \<in> set (columns df)" and
    cached: "cached_categories (Some df) = [PStr (ascii ''nan'')]"
    by (auto simp: std_env_simps)
  have "recommend std_env (File (always nan_csv)) None ?b = (Some df, (Ok_items 0 [], 200))"
    using e col
  proof (rule recommend_compiled)
    show "parse_limit std_env (limit_raw ?b) = Inr None" by simp
    show "categories ?b = Some [PStr (ascii ''nan'')]" by simp
    show "PStr (ascii ''nan'') \<in> set [PStr (ascii ''nan'')]" by simp
    show "ascii ''nan'' \<in> set (synonyms_of (resolve (translit std_env) (PStr (ascii ''nan''))))"
      by (simp add: std_env_simps resolve_nan synonyms_of_nan)
    show "ascii ''nan'' \<noteq> []" by (rule ascii_nonempty)
  qed
  moreover have "str_in (ascii ''nan'') (ascii ''nan'')"
    by (simp add: ascii_def)
  ultimately show ?thesis using cached resolve_nan synonyms_of_nan by simp
qed

end
